theory Spec2Isabelle
  imports Main "HOL-Library.Sublist" "HOL-Library.AList"
begin

section \<open>Data model\<close>

text \<open>
  The checklist engine of SmoothOperator: \<^verbatim>\<open>orchestrator.py\<close> (class Orchestrator),
  \<^verbatim>\<open>validation_system/core.py\<close> (class TransitionValidator) and
  \<^verbatim>\<open>validation_system/blockers/auto_blocker_resolver.py\<close> (class BlockerResolver).

  Python dictionaries keep insertion order, so a dictionary is an association list with
  distinct keys: \<open>map_of\<close> reads a key and \<open>AList.update\<close> stores one (an existing key
  keeps its place, a new key goes to the end), as \<^verbatim>\<open>d[k] = v\<close> does.
  The checklist is read through the keys of section 6 of the specification, and the
  keys the code indexes without a default (\<^verbatim>\<open>name\<close>, \<^verbatim>\<open>description\<close>, \<^verbatim>\<open>script\<close>,
  \<^verbatim>\<open>type\<close>) are fields that are always present; the keys it reads with \<^verbatim>\<open>in\<close> or
  \<^verbatim>\<open>.get\<close> are optional fields.
\<close>

type_synonym 'v dict = "(string \<times> 'v) list"

datatype json =
    JNull
  | JBool bool
  | JNum int
  | JStr string
  | JArr "json list"
  | JObj "(string \<times> json) list"

text \<open>What \<^verbatim>\<open>subprocess.run(..., capture_output=True, text=True)\<close> gives: a completed
  process with its return code, standard output and standard error, or an exception when
  the process cannot be started.\<close>

datatype proc_outcome =
    Completed (returncode: int) (stdout: string) (stderr: string)
  | Run_raised string

text \<open>What \<^verbatim>\<open>LMStudioClient.generate_prompt\<close> gives: the text of the reply (the client turns
  a request failure into the text \<^verbatim>\<open>Error generating prompt: ...\<close>), or an exception of another
  kind that leaves the client.\<close>

datatype ai_outcome =
    Reply string
  | Ai_raised string

record prompt_context =
  ctx_phase :: string
  ctx_task_description :: string
  ctx_implementation_data :: string

record resolution =
  diagnostics :: "string option"
  lmstudio_prompt :: "string option"
  required_experts :: "string list option"

record blocker =
  blocker_type :: string
  blocker_resolution :: "resolution option"

record validation =
  script :: string
  expected_artifacts :: "string list option"

record task =
  description :: string
  command :: "string option"
  task_validation :: "validation option"
  blockers :: "blocker list option"

record success_gate =
  metric :: "string option"
  min_value :: "int option"

record phase =
  name :: string
  tasks :: "task list option"
  phase_success_gate :: "success_gate option"

text \<open>The status document: phase name to \<^verbatim>\<open>{"status": ..., "tasks": {description: status}}\<close>.
  A document reloaded from disk may lack either key of an entry.\<close>

record phase_entry =
  entry_status :: "string option"
  entry_tasks :: "string dict option"

type_synonym status_doc = "phase_entry dict"

text \<open>Everything the engine does to the outside world is recorded, with what came back.\<close>

datatype event =
    Ran_diagnostics string proc_outcome
  | Asked_assistant prompt_context ai_outcome
  | Ran_command string string string proc_outcome
  | Ran_validation string string string proc_outcome
  | Saved_status status_doc

text \<open>The outside world answers as a function of everything that happened before, so the
  same command may succeed once and fail later. \<open>json_loads\<close> is Python's
  \<^verbatim>\<open>json.loads\<close>, with \<open>None\<close> for \<^verbatim>\<open>JSONDecodeError\<close>.\<close>

record env =
  run_shell :: "event list \<Rightarrow> string \<Rightarrow> proc_outcome"
  run_python :: "event list \<Rightarrow> string \<Rightarrow> proc_outcome"
  generate_prompt :: "event list \<Rightarrow> prompt_context \<Rightarrow> ai_outcome"
  json_loads :: "string \<Rightarrow> json option"

section \<open>Strings\<close>

text \<open>\<^verbatim>\<open>str.lower()\<close> on the letters A to Z. No other character lowers to one of the
  letters of \<^verbatim>\<open>resolved\<close>, the only text the engine looks for in lowered text.\<close>

definition lower_char :: "char \<Rightarrow> char" where
  "lower_char c =
     (case map_of (zip ''ABCDEFGHIJKLMNOPQRSTUVWXYZ'' ''abcdefghijklmnopqrstuvwxyz'') c of
        None \<Rightarrow> c
      | Some d \<Rightarrow> d)"

definition lower :: "string \<Rightarrow> string" where
  "lower s = map lower_char s"

text \<open>\<^verbatim>\<open>needle in text\<close> on strings is \<^const>\<open>sublist\<close>: a contiguous occurrence.\<close>

section \<open>BlockerResolver\<close>

definition empty_resolution :: resolution where
  "empty_resolution =
     \<lparr>diagnostics = None, lmstudio_prompt = None, required_experts = None\<rparr>"

text \<open>The body of the \<^verbatim>\<open>if "diagnostics" in resolution\<close> block, after the process was run:
  \<open>False\<close> is one of its three \<^verbatim>\<open>return False\<close>, \<open>True\<close> is falling out of the block.
  A standard output that is JSON but not an object has no \<^verbatim>\<open>.get\<close>: the AttributeError is
  caught by the outer \<^verbatim>\<open>except Exception\<close>.\<close>

fun diagnostics_passed :: "env \<Rightarrow> proc_outcome \<Rightarrow> bool" where
  "diagnostics_passed e (Run_raised msg) = False"
| "diagnostics_passed e (Completed rc out err) =
     (if rc \<noteq> 0 then False
      else (case json_loads e out of
              None \<Rightarrow> True
            | Some (JObj kvs) \<Rightarrow> map_of kvs ''status'' = Some (JStr ''success'')
            | Some _ \<Rightarrow> False))"

text \<open>\<^verbatim>\<open>blocker.get("resolution", {})\<close>.\<close>

definition resolution_of :: "blocker \<Rightarrow> resolution" where
  "resolution_of b =
     (case blocker_resolution b of None \<Rightarrow> empty_resolution | Some r \<Rightarrow> r)"

text \<open>The diagnostics block as a whole: whether control leaves it at its end (\<open>True\<close>) or
  through a \<^verbatim>\<open>return False\<close>, and the events so far. Without a diagnostic command the
  block is skipped.\<close>

definition run_diagnostics :: "env \<Rightarrow> event list \<Rightarrow> resolution \<Rightarrow> bool \<times> event list" where
  "run_diagnostics e log res =
     (case diagnostics res of
        None \<Rightarrow> (True, log)
      | Some cmd \<Rightarrow>
          (let out = run_shell e log cmd
           in (diagnostics_passed e out, log @ [Ran_diagnostics cmd out])))"

definition assistant_context :: "blocker \<Rightarrow> string \<Rightarrow> prompt_context" where
  "assistant_context b prompt =
     \<lparr>ctx_phase = ''Blocker Resolution'',
      ctx_task_description = ''Checking blocker: '' @ blocker_type b,
      ctx_implementation_data = prompt\<rparr>"

text \<open>\<^verbatim>\<open>_check_if_resolved\<close>: \<open>Inl\<close> is an exception that leaves the method, \<open>Inr\<close> the
  returned truth value, each with the extended record of events. \<^verbatim>\<open>if prompt:\<close> holds for a
  prompt that is present and not empty, \<^verbatim>\<open>if not required_experts:\<close> for a list that is
  absent or empty.\<close>

definition check_if_resolved ::
  "env \<Rightarrow> event list \<Rightarrow> blocker \<Rightarrow> (string \<times> event list) + (bool \<times> event list)" where
  "check_if_resolved e log b =
     (let res = resolution_of b;
          (ok, log1) = run_diagnostics e log res
      in if \<not> ok then Inr (False, log1)
         else (case lmstudio_prompt res of
                 Some (c # cs) \<Rightarrow>
                   (let ctx = assistant_context b (c # cs);
                        ans = generate_prompt e log1 ctx
                    in (case ans of
                          Ai_raised msg \<Rightarrow> Inl (msg, log1 @ [Asked_assistant ctx ans])
                        | Reply response \<Rightarrow>
                            Inr (sublist ''resolved'' (lower response),
                                 log1 @ [Asked_assistant ctx ans])))
               | _ \<Rightarrow>
                   (case required_experts res of
                      Some (x # xs) \<Rightarrow> Inr (False, log1)
                    | _ \<Rightarrow> Inr (True, log1))))"

text \<open>\<^verbatim>\<open>resolve_blockers\<close>: the blockers that are not resolved, in their order.\<close>

fun resolve_blockers ::
  "env \<Rightarrow> event list \<Rightarrow> blocker list
     \<Rightarrow> (string \<times> event list) + (blocker list \<times> event list)" where
  "resolve_blockers e log [] = Inr ([], log)"
| "resolve_blockers e log (b # bs) =
     (case check_if_resolved e log b of
        Inl raised \<Rightarrow> Inl raised
      | Inr (ok, log1) \<Rightarrow>
          (case resolve_blockers e log1 bs of
             Inl raised \<Rightarrow> Inl raised
           | Inr (unresolved, log2) \<Rightarrow>
               Inr (if ok then unresolved else b # unresolved, log2)))"

section \<open>TransitionValidator\<close>

datatype ValidationStatus = SUCCESS | FAILURE | BLOCKED | SKIPPED

text \<open>The dataclass \<^verbatim>\<open>ValidationResult\<close> has exactly these three fields. The message is
  whatever the code puts there: text of its own (\<open>JStr\<close>) or the value of the
  \<^verbatim>\<open>error_message\<close> key of the script's output; a JSON \<^verbatim>\<open>null\<close> there is Python's
  \<^verbatim>\<open>None\<close>, the same as no message.\<close>

record ValidationResult =
  status :: ValidationStatus
  artifacts :: "string dict"
  error_message :: "json option"

text \<open>A file under \<^verbatim>\<open>artifacts_dir\<close>: \<^verbatim>\<open>exists()\<close> is false, or it is read, or
  opening and reading it raises.\<close>

datatype file_read = Absent | Content string | Unreadable string

text \<open>\<^verbatim>\<open>str(e)\<close> of the AttributeError that \<^verbatim>\<open>output.get\<close> raises when the parsed
  output is not an object.\<close>

fun type_name :: "json \<Rightarrow> string" where
  "type_name JNull = ''NoneType''"
| "type_name (JBool b) = ''bool''"
| "type_name (JNum n) = ''int''"
| "type_name (JStr s) = ''str''"
| "type_name (JArr xs) = ''list''"
| "type_name (JObj kvs) = ''dict''"

definition no_get :: "json \<Rightarrow> string" where
  "no_get j = [CHR 0x27] @ type_name j @ [CHR 0x27] @ '' object has no attribute ''
                @ [CHR 0x27] @ ''get'' @ [CHR 0x27]"

text \<open>The loop over the expected artifacts: \<open>Inr\<close> is the finished dictionary, \<open>Inl\<close> the
  result returned from inside the loop (a missing artifact, with what was collected so
  far) or built by the outer handler (a file that cannot be read).\<close>

fun collect_artifacts ::
  "(string \<Rightarrow> file_read) \<Rightarrow> string list \<Rightarrow> string dict \<Rightarrow> ValidationResult + string dict" where
  "collect_artifacts rd [] acc = Inr acc"
| "collect_artifacts rd (a # as) acc =
     (case rd a of
        Content text \<Rightarrow> collect_artifacts rd as (AList.update a text acc)
      | Absent \<Rightarrow>
          Inl \<lparr>status = FAILURE, artifacts = acc,
               error_message = Some (JStr (''Missing artifact: '' @ a))\<rparr>
      | Unreadable msg \<Rightarrow>
          Inl \<lparr>status = FAILURE, artifacts = [],
               error_message = Some (JStr (''Validation error: '' @ msg))\<rparr>)"

text \<open>\<^verbatim>\<open>validate_task(task, phase_name)\<close>. The environment gives the outcome of
  \<^verbatim>\<open>subprocess.run(["python", script])\<close>, the parse of its output and the artifact files.\<close>

definition validate_task ::
  "(string \<Rightarrow> proc_outcome) \<Rightarrow> (string \<Rightarrow> json option) \<Rightarrow> (string \<Rightarrow> file_read)
     \<Rightarrow> task \<Rightarrow> string \<Rightarrow> ValidationResult" where
  "validate_task run loads rd t phase_name =
     (case task_validation t of
        None \<Rightarrow> \<lparr>status = SUCCESS, artifacts = [], error_message = None\<rparr>
      | Some v \<Rightarrow>
          (let expected = (case expected_artifacts v of None \<Rightarrow> [] | Some xs \<Rightarrow> xs)
           in (case run (script v) of
                 Run_raised msg \<Rightarrow>
                   \<lparr>status = FAILURE, artifacts = [],
                    error_message = Some (JStr (''Validation error: '' @ msg))\<rparr>
               | Completed rc out err \<Rightarrow>
                   if rc \<noteq> 0
                   then \<lparr>status = FAILURE, artifacts = [],
                         error_message = Some (JStr (''Validation script failed: '' @ err))\<rparr>
                   else (case loads out of
                           None \<Rightarrow>
                             \<lparr>status = FAILURE, artifacts = [],
                              error_message =
                                Some (JStr ''Invalid validation script output format'')\<rparr>
                         | Some (JObj kvs) \<Rightarrow>
                             (let st = (case map_of kvs ''status'' of
                                          None \<Rightarrow> JStr ''failure'' | Some x \<Rightarrow> x)
                              in (case collect_artifacts rd expected [] of
                                    Inl early \<Rightarrow> early
                                  | Inr arts \<Rightarrow>
                                      if st = JStr ''success''
                                      then \<lparr>status = SUCCESS, artifacts = arts,
                                            error_message = None\<rparr>
                                      else \<lparr>status = FAILURE, artifacts = arts,
                                            error_message =
                                              (case map_of kvs ''error_message'' of
                                                 None \<Rightarrow> Some (JStr ''Validation failed'')
                                               | Some JNull \<Rightarrow> None
                                               | Some m \<Rightarrow> Some m)\<rparr>))
                         | Some j \<Rightarrow>
                             \<lparr>status = FAILURE, artifacts = [],
                              error_message =
                                Some (JStr (''Validation error: '' @ no_get j))\<rparr>))))"

section \<open>Orchestrator\<close>

text \<open>The part of the orchestrator a run changes: \<^verbatim>\<open>self.status\<close> and the record of
  events. \<^verbatim>\<open>_save_status\<close> is called with a checklist loaded and named, so that every
  call reaches the write; the write itself is modelled in the next section, here a save
  is the event of handing the current document to it.\<close>

record run_state =
  st_doc :: status_doc
  st_log :: "event list"

definition save_status :: "run_state \<Rightarrow> run_state" where
  "save_status s = s\<lparr>st_log := st_log s @ [Saved_status (st_doc s)]\<rparr>"

text \<open>Lines 96 to 99: a phase missing from the document gets a fresh entry, then its
  status becomes \<^verbatim>\<open>in_progress\<close>.\<close>

definition begin_phase :: "string \<Rightarrow> status_doc \<Rightarrow> status_doc" where
  "begin_phase pn d =
     (let ent = (case map_of d pn of
                   None \<Rightarrow> \<lparr>entry_status = Some ''not_started'', entry_tasks = Some []\<rparr>
                 | Some x \<Rightarrow> x)
      in AList.update pn (ent\<lparr>entry_status := Some ''in_progress''\<rparr>) d)"

text \<open>\<^verbatim>\<open>self.status[phase_name]["status"] = v\<close>; \<open>None\<close> is the KeyError of a phase that
  is not in the document.\<close>

definition set_phase_status :: "string \<Rightarrow> string \<Rightarrow> status_doc \<Rightarrow> status_doc option" where
  "set_phase_status pn v d =
     (case map_of d pn of
        None \<Rightarrow> None
      | Some ent \<Rightarrow> Some (AList.update pn (ent\<lparr>entry_status := Some v\<rparr>) d))"

text \<open>Lines 107 to 109: the entry gets a \<^verbatim>\<open>tasks\<close> dictionary when it has none, then the
  task becomes \<^verbatim>\<open>in_progress\<close>.\<close>

definition begin_task :: "string \<Rightarrow> string \<Rightarrow> status_doc \<Rightarrow> status_doc option" where
  "begin_task pn td d =
     (case map_of d pn of
        None \<Rightarrow> None
      | Some ent \<Rightarrow>
          (let ts = (case entry_tasks ent of None \<Rightarrow> [] | Some x \<Rightarrow> x)
           in Some (AList.update pn
                      (ent\<lparr>entry_tasks := Some (AList.update td ''in_progress'' ts)\<rparr>) d)))"

text \<open>\<^verbatim>\<open>self.status[phase_name]["tasks"][task_desc] = v\<close>; \<open>None\<close> is a KeyError.\<close>

definition set_task_status ::
  "string \<Rightarrow> string \<Rightarrow> string \<Rightarrow> status_doc \<Rightarrow> status_doc option" where
  "set_task_status pn td v d =
     (case map_of d pn of
        None \<Rightarrow> None
      | Some ent \<Rightarrow>
          (case entry_tasks ent of
             None \<Rightarrow> None
           | Some ts \<Rightarrow>
               Some (AList.update pn (ent\<lparr>entry_tasks := Some (AList.update td v ts)\<rparr>) d)))"

definition task_status :: "status_doc \<Rightarrow> string \<Rightarrow> string \<Rightarrow> string option" where
  "task_status d pn td =
     (case map_of d pn of
        None \<Rightarrow> None
      | Some ent \<Rightarrow> (case entry_tasks ent of None \<Rightarrow> None | Some ts \<Rightarrow> map_of ts td))"

definition phase_status :: "status_doc \<Rightarrow> string \<Rightarrow> string option" where
  "phase_status d pn = (case map_of d pn of None \<Rightarrow> None | Some ent \<Rightarrow> entry_status ent)"

text \<open>Where control goes after a piece of the loop body: on to the next statement, or out
  of \<^verbatim>\<open>execute_checklist\<close> with an exit code. An exception is caught by the handler around
  the whole method, which returns 1.\<close>

datatype flow = Continue run_state | Return int run_state

text \<open>A status assignment followed by \<^verbatim>\<open>self._save_status()\<close>.\<close>

definition mark_task :: "string \<Rightarrow> string \<Rightarrow> string \<Rightarrow> run_state \<Rightarrow> run_state option" where
  "mark_task pn td v s =
     (case set_task_status pn td v (st_doc s) of
        None \<Rightarrow> None
      | Some d \<Rightarrow> Some (save_status (s\<lparr>st_doc := d\<rparr>)))"

text \<open>The three places that mark the task \<^verbatim>\<open>failed\<close>, save and \<^verbatim>\<open>return 1\<close>.\<close>

definition fail_task :: "string \<Rightarrow> string \<Rightarrow> run_state \<Rightarrow> flow" where
  "fail_task pn td s =
     (case mark_task pn td ''failed'' s of None \<Rightarrow> Return 1 s | Some s' \<Rightarrow> Return 1 s')"

text \<open>Lines 181 and 182.\<close>

definition complete_task :: "string \<Rightarrow> string \<Rightarrow> run_state \<Rightarrow> flow" where
  "complete_task pn td s =
     (case mark_task pn td ''completed'' s of None \<Rightarrow> Return 1 s | Some s' \<Rightarrow> Continue s')"

text \<open>Lines 158 to 179: the orchestrator runs the validation script itself and looks at the
  return code only.\<close>

definition validation_step :: "env \<Rightarrow> string \<Rightarrow> task \<Rightarrow> run_state \<Rightarrow> flow" where
  "validation_step e pn t s =
     (case task_validation t of
        None \<Rightarrow> complete_task pn (description t) s
      | Some v \<Rightarrow>
          (let out = run_python e (st_log s) (script v);
               s1 = s\<lparr>st_log := st_log s @ [Ran_validation pn (description t) (script v) out]\<rparr>
           in (case out of
                 Run_raised msg \<Rightarrow> fail_task pn (description t) s1
               | Completed rc so se \<Rightarrow>
                   if rc \<noteq> 0 then fail_task pn (description t) s1
                   else complete_task pn (description t) s1)))"

text \<open>Lines 135 to 156.\<close>

definition command_step :: "env \<Rightarrow> string \<Rightarrow> task \<Rightarrow> run_state \<Rightarrow> flow" where
  "command_step e pn t s =
     (case command t of
        None \<Rightarrow> validation_step e pn t s
      | Some c \<Rightarrow>
          (let out = run_shell e (st_log s) c;
               s1 = s\<lparr>st_log := st_log s @ [Ran_command pn (description t) c out]\<rparr>
           in (case out of
                 Run_raised msg \<Rightarrow> fail_task pn (description t) s1
               | Completed rc so se \<Rightarrow>
                   if rc \<noteq> 0 then fail_task pn (description t) s1
                   else validation_step e pn t s1)))"

text \<open>Lines 112 to 133. What is printed about the unresolved blockers changes nothing; the
  task becomes \<^verbatim>\<open>blocked\<close> and the loop goes on with the next task.\<close>

definition blockers_step :: "env \<Rightarrow> string \<Rightarrow> task \<Rightarrow> run_state \<Rightarrow> flow" where
  "blockers_step e pn t s =
     (case blockers t of
        Some (b # bs) \<Rightarrow>
          (case resolve_blockers e (st_log s) (b # bs) of
             Inl (msg, log1) \<Rightarrow> Return 1 (s\<lparr>st_log := log1\<rparr>)
           | Inr (unresolved, log1) \<Rightarrow>
               if unresolved \<noteq> []
               then (case mark_task pn (description t) ''blocked'' (s\<lparr>st_log := log1\<rparr>) of
                       None \<Rightarrow> Return 1 (s\<lparr>st_log := log1\<rparr>)
                     | Some s' \<Rightarrow> Continue s')
               else command_step e pn t (s\<lparr>st_log := log1\<rparr>))
      | _ \<Rightarrow> command_step e pn t s)"

text \<open>The body of the loop over the tasks of a phase.\<close>

definition execute_task :: "env \<Rightarrow> string \<Rightarrow> task \<Rightarrow> run_state \<Rightarrow> flow" where
  "execute_task e pn t s =
     (case begin_task pn (description t) (st_doc s) of
        None \<Rightarrow> Return 1 s
      | Some d \<Rightarrow> blockers_step e pn t (save_status (s\<lparr>st_doc := d\<rparr>)))"

fun execute_tasks :: "env \<Rightarrow> string \<Rightarrow> task list \<Rightarrow> run_state \<Rightarrow> flow" where
  "execute_tasks e pn [] s = Continue s"
| "execute_tasks e pn (t # ts) s =
     (case execute_task e pn t s of
        Return rc s' \<Rightarrow> Return rc s'
      | Continue s' \<Rightarrow> execute_tasks e pn ts s')"

text \<open>\<^verbatim>\<open>_check_success_gate\<close>. The gate is a dictionary, so nothing in the body raises.\<close>

definition check_success_gate :: "success_gate \<Rightarrow> bool" where
  "check_success_gate gate =
     (case metric gate of
        None \<Rightarrow> True
      | Some m \<Rightarrow>
          (let min_v = (case min_value gate of None \<Rightarrow> 0 | Some x \<Rightarrow> x)
           in if m = ''integration_test_coverage'' then True
              else if m = ''api_test_coverage'' then True
              else if m = ''validation_coverage'' then True
              else True))"

text \<open>Lines 184 to 196.\<close>

definition finish_phase :: "phase \<Rightarrow> run_state \<Rightarrow> flow" where
  "finish_phase ph s =
     (let passed = (case phase_success_gate ph of
                      None \<Rightarrow> True | Some gate \<Rightarrow> check_success_gate gate)
      in if \<not> passed
         then (case set_phase_status (name ph) ''failed'' (st_doc s) of
                 None \<Rightarrow> Return 1 s
               | Some d \<Rightarrow> Return 1 (save_status (s\<lparr>st_doc := d\<rparr>)))
         else (case set_phase_status (name ph) ''completed'' (st_doc s) of
                 None \<Rightarrow> Return 1 s
               | Some d \<Rightarrow> Continue (save_status (s\<lparr>st_doc := d\<rparr>))))"

definition execute_phase :: "env \<Rightarrow> phase \<Rightarrow> run_state \<Rightarrow> flow" where
  "execute_phase e ph s =
     (let s1 = save_status (s\<lparr>st_doc := begin_phase (name ph) (st_doc s)\<rparr>)
      in (case execute_tasks e (name ph)
                 (case tasks ph of None \<Rightarrow> [] | Some ts \<Rightarrow> ts) s1 of
            Return rc s' \<Rightarrow> Return rc s'
          | Continue s2 \<Rightarrow> finish_phase ph s2))"

fun execute_phases :: "env \<Rightarrow> phase list \<Rightarrow> run_state \<Rightarrow> flow" where
  "execute_phases e [] s = Continue s"
| "execute_phases e (ph # phs) s =
     (case execute_phase e ph s of
        Return rc s' \<Rightarrow> Return rc s'
      | Continue s' \<Rightarrow> execute_phases e phs s')"

text \<open>\<^verbatim>\<open>execute_checklist\<close>: the exit code, the status document and the events of the run.
  \<open>None\<close> is no checklist loaded; otherwise the phases of the loaded checklist.\<close>

definition execute_checklist ::
  "env \<Rightarrow> phase list option \<Rightarrow> status_doc \<Rightarrow> int \<times> run_state" where
  "execute_checklist e current_checklist d =
     (case current_checklist of
        None \<Rightarrow> (1, \<lparr>st_doc = d, st_log = []\<rparr>)
      | Some phases \<Rightarrow>
          (case execute_phases e phases \<lparr>st_doc = d, st_log = []\<rparr> of
             Continue s \<Rightarrow> (0, s)
           | Return rc s \<Rightarrow> (rc, s)))"

section \<open>Writing the status document\<close>

text \<open>\<^verbatim>\<open>_save_status\<close> at the level of the file. The file system is a dictionary from a path to
  the text of the file. \<^verbatim>\<open>open(status_path, 'w')\<close> empties the file (or creates it empty), then
  \<^verbatim>\<open>json.dump\<close> writes the text of the document into it. The write can stop early: the
  open raises (nothing is touched), or the writing raises or the process dies after some
  characters reached the file. An exception is caught and reported as a warning.\<close>

type_synonym file_system = "string dict"

datatype write_fault = No_fault | Open_raises | Stops_after nat

definition status_path :: "string \<Rightarrow> string" where
  "status_path checklist_name = checklist_name @ ''_status.json''"

definition open_w :: "string \<Rightarrow> file_system \<Rightarrow> file_system" where
  "open_w path fs = AList.update path [] fs"

definition write_text :: "string \<Rightarrow> string \<Rightarrow> file_system \<Rightarrow> file_system" where
  "write_text path text fs =
     AList.update path ((case map_of fs path of None \<Rightarrow> [] | Some old \<Rightarrow> old) @ text) fs"

text \<open>\<open>loaded\<close> is \<^verbatim>\<open>self.current_checklist\<close> being set, \<open>checklist_name\<close> the attribute
  of that name when the object has it, \<open>text\<close> what \<^verbatim>\<open>json.dump(self.status, f, indent=4)\<close>
  writes.\<close>

definition save_status_file ::
  "bool \<Rightarrow> string option \<Rightarrow> string \<Rightarrow> write_fault \<Rightarrow> file_system \<Rightarrow> file_system" where
  "save_status_file loaded checklist_name text fault fs =
     (case checklist_name of
        None \<Rightarrow> fs
      | Some n \<Rightarrow>
          if \<not> loaded then fs
          else (case fault of
                  Open_raises \<Rightarrow> fs
                | No_fault \<Rightarrow> write_text (status_path n) text (open_w (status_path n) fs)
                | Stops_after k \<Rightarrow>
                    write_text (status_path n) (take k text) (open_w (status_path n) fs)))"

section \<open>Artifact cleanup\<close>

text \<open>Modelled from the spec: \<^verbatim>\<open>cleanup(task_id, max_age_days)\<close> of the artifact store
  (section 4.5), which the tests call as \<^verbatim>\<open>TransitionValidator.cleanup_artifacts\<close> and
  which \<^verbatim>\<open>validation_system/core.py\<close> does not define. The artifacts of a task live in a
  directory keyed by the task id; a file has a name and a time of last access, in seconds.
  Cleanup walks the files of the directory, deletes each file whose age (now minus last
  access) exceeds \<open>max_age_days\<close> days, keeps the others and counts the deletions; without
  the directory it returns 0.\<close>

record artifact_file =
  file_name :: string
  last_access :: int

type_synonym artifact_store = "artifact_file list dict"

text \<open>Modelled from the spec: the last-access age of a file exceeds the threshold of
  \<open>max_age_days\<close> days.\<close>

definition expired :: "int \<Rightarrow> int \<Rightarrow> artifact_file \<Rightarrow> bool" where
  "expired now max_age_days f = (now - last_access f > max_age_days * 86400)"

text \<open>Modelled from the spec: the walk over the files of one directory, giving the files
  that stay and the number of files deleted.\<close>

fun cleanup_files ::
  "int \<Rightarrow> int \<Rightarrow> artifact_file list \<Rightarrow> artifact_file list \<times> nat" where
  "cleanup_files now max_age_days [] = ([], 0)"
| "cleanup_files now max_age_days (f # fs) =
     (let (kept, n) = cleanup_files now max_age_days fs
      in if expired now max_age_days f then (kept, Suc n) else (f # kept, n))"

text \<open>Modelled from the spec: \<^verbatim>\<open>cleanup(task_id, max_age_days) -> count_deleted\<close>, with
  the store after it.\<close>

definition cleanup :: "artifact_store \<Rightarrow> int \<Rightarrow> string \<Rightarrow> int \<Rightarrow> artifact_store \<times> nat" where
  "cleanup store now task_id max_age_days =
     (case map_of store task_id of
        None \<Rightarrow> (store, 0)
      | Some files \<Rightarrow>
          (let (kept, n) = cleanup_files now max_age_days files
           in (AList.update task_id kept store, n)))"

section \<open>Test doubles\<close>

text \<open>An outside world that answers the same way whatever happened before, as the mocks of
  the repository's tests do.\<close>

definition fixed_env ::
  "(string \<Rightarrow> proc_outcome) \<Rightarrow> (string \<Rightarrow> proc_outcome) \<Rightarrow> ai_outcome
     \<Rightarrow> (string \<Rightarrow> json option) \<Rightarrow> env" where
  "fixed_env shell python answer loads =
     \<lparr>run_shell = (\<lambda>log. shell), run_python = (\<lambda>log. python),
      generate_prompt = (\<lambda>log ctx. answer), json_loads = loads\<rparr>"

section \<open>Records of events that stop at the first failing command\<close>

text \<open>A command fails when it returns a code other than 0 or cannot be started.\<close>

fun failing_command :: "event \<Rightarrow> bool" where
  "failing_command (Ran_command pn td c (Completed rc out err)) = (rc \<noteq> 0)"
| "failing_command (Ran_command pn td c (Run_raised msg)) = True"
| "failing_command ev = False"

text \<open>A record of events without a failing command.\<close>

definition clean :: "event list \<Rightarrow> bool" where
  "clean l = (\<forall>ev \<in> set l. \<not> failing_command ev)"

text \<open>A record that ends with a failing command and the save of the document in which
  the task of that command is \<^verbatim>\<open>failed\<close>.\<close>

definition stopped_at_failure :: "run_state \<Rightarrow> bool" where
  "stopped_at_failure s =
     (\<exists>l pn td c out.
        clean l \<and> failing_command (Ran_command pn td c out)
        \<and> st_log s = l @ [Ran_command pn td c out, Saved_status (st_doc s)]
        \<and> task_status (st_doc s) pn td = Some ''failed'')"

fun fail_fast_flow :: "flow \<Rightarrow> bool" where
  "fail_fast_flow (Continue s) = clean (st_log s)"
| "fail_fast_flow (Return rc s) = (rc = 1 \<and> (clean (st_log s) \<or> stopped_at_failure s))"

text \<open>The entry of the phase exists and has its \<^verbatim>\<open>tasks\<close> dictionary, so that a task
  status can be assigned.\<close>

definition ready :: "string \<Rightarrow> status_doc \<Rightarrow> bool" where
  "ready pn d = (\<exists>ent ts. map_of d pn = Some ent \<and> entry_tasks ent = Some ts)"

section \<open>The conditions of the blocker rules, stated on the inputs\<close>

text \<open>The text contains \<^verbatim>\<open>resolved\<close> in any mix of upper and lower case: a stretch of
  eight characters, each the letter of \<^verbatim>\<open>resolved\<close> at its place or the capital of it.
  This is stated on the text itself, without \<^const>\<open>lower\<close>.\<close>

definition says_resolved :: "string \<Rightarrow> bool" where
  "says_resolved text =
     (\<exists>pre w post. text = pre @ w @ post
        \<and> list_all2 (\<lambda>c d. c = d \<or> (c, d) \<in> set (zip ''RESOLVED'' ''resolved'')) w ''resolved'')"

text \<open>The diagnostics block lets control through, stated on what the process returned:
  no diagnostic command is declared, or the command exits with 0 and its output either does
  not parse or is an object whose \<^verbatim>\<open>status\<close> is \<^verbatim>\<open>success\<close>. \<open>log1\<close> is the record
  of events after the block.\<close>

definition gate_open :: "env \<Rightarrow> event list \<Rightarrow> resolution \<Rightarrow> event list \<Rightarrow> bool" where
  "gate_open e log res log1 =
     (diagnostics res = None \<and> log1 = log
      \<or> (\<exists>cmd so se. diagnostics res = Some cmd
            \<and> run_shell e log cmd = Completed 0 so se
            \<and> log1 = log @ [Ran_diagnostics cmd (Completed 0 so se)]
            \<and> (json_loads e so = None
                \<or> (\<exists>kvs. json_loads e so = Some (JObj kvs)
                      \<and> map_of kvs ''status'' = Some (JStr ''success'')))))"

section \<open>Example runs\<close>

text \<open>The assistant answers with a given text; every process exits with 0.\<close>

definition answering_env :: "string \<Rightarrow> env" where
  "answering_env answer =
     fixed_env (\<lambda>c. Completed 0 [] []) (\<lambda>scr. Completed 0 [] []) (Reply answer) (\<lambda>text. None)"

text \<open>Every shell command exits with 1.\<close>

definition exit_one_env :: env where
  "exit_one_env =
     fixed_env (\<lambda>c. Completed 1 [] []) (\<lambda>scr. Completed 0 [] []) (Reply []) (\<lambda>text. None)"

text \<open>Every shell command exits with 0 and reports the status \<^verbatim>\<open>failure\<close>.\<close>

definition failure_report_env :: env where
  \<open>failure_report_env =
     fixed_env (\<lambda>c. Completed 0 ''{"status": "failure"}'' [])
       (\<lambda>scr. Completed 0 [] [])
       (Reply [])
       (\<lambda>text. if text = ''{"status": "failure"}''
                then Some (JObj [(''status'', JStr ''failure'')]) else None)\<close>

text \<open>A blocker with a prompt and a required expert, and a blocker with a diagnostic
  command and a given experts list.\<close>

definition prompt_blocker :: blocker where
  "prompt_blocker =
     \<lparr>blocker_type = ''TestBlocker'',
      blocker_resolution =
        Some \<lparr>diagnostics = None, lmstudio_prompt = Some ''Test prompt'',
              required_experts = Some [''Python Developer'']\<rparr>\<rparr>"

definition diagnostics_blocker :: "string list \<Rightarrow> blocker" where
  "diagnostics_blocker experts =
     \<lparr>blocker_type = ''TestBlocker'',
      blocker_resolution =
        Some \<lparr>diagnostics = Some ''check.sh'', lmstudio_prompt = None,
              required_experts = Some experts\<rparr>\<rparr>"




text \<open>Every process exits with 0 and prints nothing, and nothing parses as JSON.\<close>

definition quiet_env :: env where
  "quiet_env =
     fixed_env (\<lambda>c. Completed 0 [] []) (\<lambda>scr. Completed 0 [] []) (Reply []) (\<lambda>text. None)"


text \<open>A checklist whose first command fails, with two tasks after it.\<close>

definition failing_env :: env where
  "failing_env =
     fixed_env (\<lambda>c. if c = ''exit 1'' then Completed 1 [] ''boom'' else Completed 0 [] [])
       (\<lambda>scr. Completed 0 [] []) (Reply []) (\<lambda>text. None)"

definition failing_phases :: "phase list" where
  "failing_phases =
     [\<lparr>name = ''Phase 1'',
       tasks = Some [\<lparr>description = ''Task 1'', command = Some ''exit 1'',
                      task_validation = None, blockers = None\<rparr>,
                     \<lparr>description = ''Task 2'', command = Some ''echo never'',
                      task_validation = None, blockers = None\<rparr>],
       phase_success_gate = None\<rparr>,
      \<lparr>name = ''Phase 2'',
       tasks = Some [\<lparr>description = ''Task 3'', command = Some ''echo never'',
                      task_validation = None, blockers = None\<rparr>],
       phase_success_gate = None\<rparr>]"




text \<open>A phase behind a success gate of 80 on \<^verbatim>\<open>test_coverage\<close>, whose validation script
  succeeds; the metrics file it leaves reports 75.\<close>

definition passing_env :: env where
  \<open>passing_env =
     fixed_env (\<lambda>c. Completed 0 [] [])
       (\<lambda>scr. Completed 0 ''{"status": "success"}'' [])
       (Reply [])
       (\<lambda>text. if text = ''{"status": "success"}''
                then Some (JObj [(''status'', JStr ''success'')]) else None)\<close>

definition gated_phases :: "phase list" where
  "gated_phases =
     [\<lparr>name = ''Test Phase'',
       tasks = Some [\<lparr>description = ''Test Task'', command = None,
                      task_validation =
                        Some \<lparr>script = ''validate_test.py'', expected_artifacts = None\<rparr>,
                      blockers = None\<rparr>],
       phase_success_gate = Some \<lparr>metric = Some ''test_coverage'', min_value = Some 80\<rparr>\<rparr>]"

section \<open>Evaluation\<close>

lemmas engine_defs =
  execute_checklist_def execute_phase_def finish_phase_def execute_task_def blockers_step_def
  command_step_def validation_step_def complete_task_def fail_task_def mark_task_def
  save_status_def begin_phase_def begin_task_def set_task_status_def set_phase_status_def
  task_status_def check_success_gate_def fixed_env_def

section \<open>Blocker resolution: which rule decides\<close>

lemma lower_char_letters:
  "lower_char c = CHR ''r'' \<longleftrightarrow> c = CHR ''r'' \<or> c = CHR ''R''"
  "lower_char c = CHR ''e'' \<longleftrightarrow> c = CHR ''e'' \<or> c = CHR ''E''"
  "lower_char c = CHR ''s'' \<longleftrightarrow> c = CHR ''s'' \<or> c = CHR ''S''"
  "lower_char c = CHR ''o'' \<longleftrightarrow> c = CHR ''o'' \<or> c = CHR ''O''"
  "lower_char c = CHR ''l'' \<longleftrightarrow> c = CHR ''l'' \<or> c = CHR ''L''"
  "lower_char c = CHR ''v'' \<longleftrightarrow> c = CHR ''v'' \<or> c = CHR ''V''"
  "lower_char c = CHR ''d'' \<longleftrightarrow> c = CHR ''d'' \<or> c = CHR ''D''"
  by (simp_all add: lower_char_def)

lemma map_lower_resolved:
  "map lower_char w = ''resolved''
     \<longleftrightarrow> list_all2 (\<lambda>c d. c = d \<or> (c, d) \<in> set (zip ''RESOLVED'' ''resolved'')) w ''resolved''"
  by (simp add: map_eq_Cons_conv list_all2_Cons2 lower_char_letters)

lemma sublist_map_conv:
  "sublist xs (map f r) \<longleftrightarrow> (\<exists>pre w post. r = pre @ w @ post \<and> map f w = xs)"
proof
  assume "sublist xs (map f r)"
  then obtain ps ss where "map f r = ps @ xs @ ss" by (auto simp: sublist_def)
  then obtain pre rest where r1: "r = pre @ rest" and "xs @ ss = map f rest"
    unfolding map_eq_append_conv by blast
  then have "map f rest = xs @ ss" by simp
  then obtain w post where "rest = w @ post" and "xs = map f w"
    unfolding map_eq_append_conv by blast
  with r1 show "\<exists>pre w post. r = pre @ w @ post \<and> map f w = xs" by auto
next
  assume "\<exists>pre w post. r = pre @ w @ post \<and> map f w = xs"
  then obtain pre w post where "r = pre @ w @ post" and "map f w = xs" by blast
  then have "map f r = map f pre @ xs @ map f post" by simp
  then show "sublist xs (map f r)" unfolding sublist_def by blast
qed

lemma says_resolved_lower: "says_resolved text = sublist ''resolved'' (lower text)"
  unfolding says_resolved_def lower_def sublist_map_conv map_lower_resolved ..

lemma gate_open_run_diagnostics:
  "gate_open e log res log1 \<Longrightarrow> run_diagnostics e log res = (True, log1)"
  by (auto simp: gate_open_def run_diagnostics_def)

lemma run_diagnostics_raised:
  "diagnostics res = Some cmd \<Longrightarrow> run_shell e log cmd = Run_raised msg
     \<Longrightarrow> run_diagnostics e log res = (False, log @ [Ran_diagnostics cmd (Run_raised msg)])"
  by (simp add: run_diagnostics_def)

lemma run_diagnostics_failed:
  assumes "diagnostics res = Some cmd" and "run_shell e log cmd = Completed rc so se"
    and "rc \<noteq> 0 \<or> (\<exists>j. json_loads e so = Some j
                         \<and> (\<forall>kvs. j = JObj kvs \<longrightarrow> map_of kvs ''status'' \<noteq> Some (JStr ''success'')))"
  shows "run_diagnostics e log res = (False, log @ [Ran_diagnostics cmd (Completed rc so se)])"
proof (cases "rc = 0")
  case False
  with assms(1,2) show ?thesis by (simp add: run_diagnostics_def)
next
  case True
  with assms(3) obtain j where j: "json_loads e so = Some j"
    and nj: "\<forall>kvs. j = JObj kvs \<longrightarrow> map_of kvs ''status'' \<noteq> Some (JStr ''success'')" by blast
  from nj have "\<not> (case j of JObj kvs \<Rightarrow> map_of kvs ''status'' = Some (JStr ''success'') | _ \<Rightarrow> False)"
    by (cases j) auto
  with assms(1,2) True j show ?thesis
    by (simp add: run_diagnostics_def)
qed

lemma unresolved_at_gate:
  "run_diagnostics e log (resolution_of b) = (False, log1)
     \<Longrightarrow> check_if_resolved e log b = Inr (False, log1)"
  by (simp add: check_if_resolved_def)

lemma prompt_decides:
  assumes "run_diagnostics e log (resolution_of b) = (True, log1)"
    and "lmstudio_prompt (resolution_of b) = Some p" and "p \<noteq> []"
    and "generate_prompt e log1 (assistant_context b p) = Reply r"
  shows "check_if_resolved e log b =
           Inr (sublist ''resolved'' (lower r),
                log1 @ [Asked_assistant (assistant_context b p) (Reply r)])"
proof -
  obtain c cs where "p = c # cs" using assms(3) by (cases p) auto
  with assms show ?thesis by (simp add: check_if_resolved_def)
qed

lemma experts_decide:
  assumes "run_diagnostics e log (resolution_of b) = (True, log1)"
    and "lmstudio_prompt (resolution_of b) \<in> {None, Some []}"
  shows "check_if_resolved e log b =
           Inr (required_experts (resolution_of b) \<in> {None, Some []}, log1)"
  using assms by (auto simp: check_if_resolved_def split: option.splits list.splits)

lemma prompt_blocker_reaches:
  "gate_open (answering_env a) [] (resolution_of prompt_blocker) []"
  "lmstudio_prompt (resolution_of prompt_blocker) = Some ''Test prompt''"
  "generate_prompt (answering_env a) [] (assistant_context prompt_blocker ''Test prompt'') = Reply a"
  by (simp_all add: gate_open_def resolution_of_def prompt_blocker_def answering_env_def
        fixed_env_def)

text \<open>
  Claim C10. When the resolution of a blocker reaches the assistant rule (the diagnostics
  block lets control through and a non-empty prompt is declared) and the assistant
  answers with a text, the blocker is resolved exactly when the lowered text contains
  \<^verbatim>\<open>resolved\<close>, which is exactly when the text contains \<^verbatim>\<open>resolved\<close> in any mix of
  upper and lower case; the answer \<^verbatim>\<open>unresolved\<close> therefore resolves the blocker.
\<close>

theorem assistant_rule_substring:
  assumes "gate_open e log (resolution_of b) log1"
    and "lmstudio_prompt (resolution_of b) = Some p" and "p \<noteq> []"
    and "generate_prompt e log1 (assistant_context b p) = Reply response"
  shows "check_if_resolved e log b =
           Inr (sublist ''resolved'' (lower response),
                log1 @ [Asked_assistant (assistant_context b p) (Reply response)])
         \<and> sublist ''resolved'' (lower response) = says_resolved response
         \<and> (response = ''unresolved'' \<longrightarrow>
              check_if_resolved e log b =
                Inr (True, log1 @ [Asked_assistant (assistant_context b p) (Reply response)]))"
proof -
  note main = prompt_decides [OF gate_open_run_diagnostics [OF assms(1)] assms(2,3,4)]
  have "sublist ''resolved'' (lower ''unresolved'')"
    by (simp add: lower_def lower_char_def sublist_Cons_right)
  with main says_resolved_lower [of response] show ?thesis by simp
qed

theorem assistant_rule_substring_witness:
  "check_if_resolved (answering_env ''unresolved'') [] prompt_blocker
     = Inr (True, [Asked_assistant (assistant_context prompt_blocker ''Test prompt'')
                     (Reply ''unresolved'')])
   \<and> check_if_resolved (answering_env ''RESOLVED'') [] prompt_blocker
     = Inr (True, [Asked_assistant (assistant_context prompt_blocker ''Test prompt'')
                     (Reply ''RESOLVED'')])
   \<and> says_resolved ''Task Resolved successfully''
   \<and> check_if_resolved (answering_env ''Still blocked'') [] prompt_blocker
     = Inr (False, [Asked_assistant (assistant_context prompt_blocker ''Test prompt'')
                      (Reply ''Still blocked'')])
   \<and> \<not> says_resolved ''Still blocked''"
proof -
  have ne: "''Test prompt'' \<noteq> []" by simp
  note w = assistant_rule_substring [OF prompt_blocker_reaches(1,2) ne prompt_blocker_reaches(3)]
  have l1: "sublist ''resolved'' (lower ''unresolved'')"
    and l2: "sublist ''resolved'' (lower ''RESOLVED'')"
    and l3: "sublist ''resolved'' (lower ''Task Resolved successfully'')"
    and l4: "\<not> sublist ''resolved'' (lower ''Still blocked'')"
    by (simp_all add: lower_def lower_char_def sublist_Cons_right)
  from w [of "''unresolved''"] l1
  have a: "check_if_resolved (answering_env ''unresolved'') [] prompt_blocker
     = Inr (True, [Asked_assistant (assistant_context prompt_blocker ''Test prompt'')
                     (Reply ''unresolved'')])" by simp
  from w [of "''RESOLVED''"] l2
  have b: "check_if_resolved (answering_env ''RESOLVED'') [] prompt_blocker
     = Inr (True, [Asked_assistant (assistant_context prompt_blocker ''Test prompt'')
                     (Reply ''RESOLVED'')])" by simp
  from w [of "''Task Resolved successfully''"] l3
  have c: "says_resolved ''Task Resolved successfully''" by simp
  from w [of "''Still blocked''"] l4
  have d: "check_if_resolved (answering_env ''Still blocked'') [] prompt_blocker
     = Inr (False, [Asked_assistant (assistant_context prompt_blocker ''Test prompt'')
                      (Reply ''Still blocked'')])"
    and e: "\<not> says_resolved ''Still blocked''" by simp_all
  from a b c d e show ?thesis by blast
qed

text \<open>
  Claim C3 as stated fails: the diagnostic command of this blocker exits with 0 and
  prints nothing that parses, and the blocker is reported unresolved because it also lists
  a required expert.
\<close>

theorem first_rule_counterexample:
  "run_shell quiet_env [] ''python -m pytest --verbose'' = Completed 0 [] []
   \<and> json_loads quiet_env [] = None
   \<and> check_if_resolved quiet_env []
       \<lparr>blocker_type = ''TestFailure'',
        blocker_resolution =
          Some \<lparr>diagnostics = Some ''python -m pytest --verbose'', lmstudio_prompt = None,
                required_experts = Some [''QA Engineer'']\<rparr>\<rparr>
     = Inr (False, [Ran_diagnostics ''python -m pytest --verbose'' (Completed 0 [] [])])"
  by (simp add: check_if_resolved_def run_diagnostics_def resolution_of_def fixed_env_def
        quiet_env_def)

text \<open>
  Claim C3, amended. The diagnostic command is a gate in front of the other rules. The
  blocker is unresolved when the command cannot be started, when it exits with a code
  other than 0, and when its output parses to anything but an object whose \<^verbatim>\<open>status\<close>
  is \<^verbatim>\<open>success\<close>. A diagnostic that passes decides nothing. After the gate the first
  matching rule applies: a non-empty prompt lets the assistant's answer decide (resolved
  when it contains \<^verbatim>\<open>resolved\<close> in any case), whatever the experts list; without a
  prompt the blocker is resolved exactly when the experts list is absent or empty.
\<close>

theorem diagnostics_is_a_gate:
  "(\<forall>cmd msg. diagnostics (resolution_of b) = Some cmd \<and> run_shell e log cmd = Run_raised msg
      \<longrightarrow> check_if_resolved e log b
            = Inr (False, log @ [Ran_diagnostics cmd (Run_raised msg)]))
   \<and> (\<forall>cmd rc so se.
        diagnostics (resolution_of b) = Some cmd \<and> run_shell e log cmd = Completed rc so se
        \<and> (rc \<noteq> 0
            \<or> (\<exists>j. json_loads e so = Some j
                  \<and> (\<forall>kvs. j = JObj kvs \<longrightarrow> map_of kvs ''status'' \<noteq> Some (JStr ''success''))))
      \<longrightarrow> check_if_resolved e log b
            = Inr (False, log @ [Ran_diagnostics cmd (Completed rc so se)]))
   \<and> (\<forall>log1. gate_open e log (resolution_of b) log1 \<longrightarrow>
        (\<forall>p r. lmstudio_prompt (resolution_of b) = Some p \<and> p \<noteq> []
                \<and> generate_prompt e log1 (assistant_context b p) = Reply r
           \<longrightarrow> check_if_resolved e log b =
                 Inr (says_resolved r, log1 @ [Asked_assistant (assistant_context b p) (Reply r)]))
        \<and> (lmstudio_prompt (resolution_of b) \<in> {None, Some []}
             \<longrightarrow> check_if_resolved e log b =
                   Inr (required_experts (resolution_of b) \<in> {None, Some []}, log1)))"
proof (intro conjI allI impI)
  fix cmd msg
  assume "diagnostics (resolution_of b) = Some cmd \<and> run_shell e log cmd = Run_raised msg"
  then show "check_if_resolved e log b = Inr (False, log @ [Ran_diagnostics cmd (Run_raised msg)])"
    by (intro unresolved_at_gate run_diagnostics_raised) simp_all
next
  fix cmd rc so se
  assume h: "diagnostics (resolution_of b) = Some cmd \<and> run_shell e log cmd = Completed rc so se
        \<and> (rc \<noteq> 0
            \<or> (\<exists>j. json_loads e so = Some j
                  \<and> (\<forall>kvs. j = JObj kvs \<longrightarrow> map_of kvs ''status'' \<noteq> Some (JStr ''success''))))"
  show "check_if_resolved e log b = Inr (False, log @ [Ran_diagnostics cmd (Completed rc so se)])"
    by (rule unresolved_at_gate, rule run_diagnostics_failed) (use h in blast)+
next
  fix log1 p r
  assume g: "gate_open e log (resolution_of b) log1"
    and h: "lmstudio_prompt (resolution_of b) = Some p \<and> p \<noteq> []
            \<and> generate_prompt e log1 (assistant_context b p) = Reply r"
  from h have h1: "lmstudio_prompt (resolution_of b) = Some p" and h2: "p \<noteq> []"
    and h3: "generate_prompt e log1 (assistant_context b p) = Reply r" by blast+
  from prompt_decides [OF gate_open_run_diagnostics [OF g] h1 h2 h3]
  show "check_if_resolved e log b =
          Inr (says_resolved r, log1 @ [Asked_assistant (assistant_context b p) (Reply r)])"
    by (simp add: says_resolved_lower)
next
  fix log1
  assume g: "gate_open e log (resolution_of b) log1"
    and h: "lmstudio_prompt (resolution_of b) \<in> {None, Some []}"
  from experts_decide [OF gate_open_run_diagnostics [OF g] h]
  show "check_if_resolved e log b =
          Inr (required_experts (resolution_of b) \<in> {None, Some []}, log1)" .
qed

theorem diagnostics_is_a_gate_witness:
  \<open>check_if_resolved exit_one_env [] (diagnostics_blocker [])
     = Inr (False, [Ran_diagnostics ''check.sh'' (Completed 1 [] [])])
   \<and> check_if_resolved failure_report_env [] (diagnostics_blocker [])
     = Inr (False, [Ran_diagnostics ''check.sh'' (Completed 0 ''{"status": "failure"}'' [])])
   \<and> check_if_resolved quiet_env [] (diagnostics_blocker [])
     = Inr (True, [Ran_diagnostics ''check.sh'' (Completed 0 [] [])])
   \<and> check_if_resolved quiet_env [] (diagnostics_blocker [''QA Engineer''])
     = Inr (False, [Ran_diagnostics ''check.sh'' (Completed 0 [] [])])
   \<and> check_if_resolved (answering_env ''RESOLVED'') [] prompt_blocker
     = Inr (True, [Asked_assistant (assistant_context prompt_blocker ''Test prompt'')
                     (Reply ''RESOLVED'')])\<close>
proof -
  have d: "diagnostics (resolution_of (diagnostics_blocker xs)) = Some ''check.sh''"
    and np: "lmstudio_prompt (resolution_of (diagnostics_blocker xs)) \<in> {None, Some []}"
    and ex: "required_experts (resolution_of (diagnostics_blocker xs)) = Some xs" for xs
    by (simp_all add: resolution_of_def diagnostics_blocker_def)
  have r1: "run_shell exit_one_env [] ''check.sh'' = Completed 1 [] []"
    by (simp add: exit_one_env_def fixed_env_def)
  have r2: \<open>run_shell failure_report_env [] ''check.sh'' = Completed 0 ''{"status": "failure"}'' []\<close>
    and j2: \<open>json_loads failure_report_env ''{"status": "failure"}''
               = Some (JObj [(''status'', JStr ''failure'')])\<close>
    by (simp_all add: failure_report_env_def fixed_env_def)
  have g3: "gate_open quiet_env [] (resolution_of (diagnostics_blocker xs))
              [Ran_diagnostics ''check.sh'' (Completed 0 [] [])]" for xs
    by (simp add: gate_open_def d quiet_env_def fixed_env_def)
  have a: "check_if_resolved exit_one_env [] (diagnostics_blocker [])
     = Inr (False, [Ran_diagnostics ''check.sh'' (Completed 1 [] [])])"
    using diagnostics_is_a_gate [of "diagnostics_blocker []" exit_one_env "[]"] d [of "[]"] r1
    by auto
  have "\<forall>kvs. JObj [(''status'', JStr ''failure'')] = JObj kvs
           \<longrightarrow> map_of kvs ''status'' \<noteq> Some (JStr ''success'')"
    by auto
  with j2 have f2: \<open>\<exists>j. json_loads failure_report_env ''{"status": "failure"}'' = Some j
        \<and> (\<forall>kvs. j = JObj kvs \<longrightarrow> map_of kvs ''status'' \<noteq> Some (JStr ''success''))\<close>
    by blast
  have b: \<open>check_if_resolved failure_report_env [] (diagnostics_blocker [])
     = Inr (False, [Ran_diagnostics ''check.sh'' (Completed 0 ''{"status": "failure"}'' [])])\<close>
    using diagnostics_is_a_gate [of "diagnostics_blocker []" failure_report_env "[]"]
      d [of "[]"] r2 f2
    by (metis append_Nil)
  have "check_if_resolved quiet_env [] (diagnostics_blocker xs)
     = Inr (required_experts (resolution_of (diagnostics_blocker xs)) \<in> {None, Some []},
            [Ran_diagnostics ''check.sh'' (Completed 0 [] [])])" for xs
    using diagnostics_is_a_gate [of "diagnostics_blocker xs" quiet_env "[]"] g3 [of xs] np [of xs]
    by blast
  then have c: "check_if_resolved quiet_env [] (diagnostics_blocker [])
     = Inr (True, [Ran_diagnostics ''check.sh'' (Completed 0 [] [])])"
    and c': "check_if_resolved quiet_env [] (diagnostics_blocker [''QA Engineer''])
     = Inr (False, [Ran_diagnostics ''check.sh'' (Completed 0 [] [])])"
    by (simp_all add: ex)
  have ne: "''Test prompt'' \<noteq> []" by simp
  have "check_if_resolved (answering_env ''RESOLVED'') [] prompt_blocker
     = Inr (says_resolved ''RESOLVED'',
            [] @ [Asked_assistant (assistant_context prompt_blocker ''Test prompt'')
                     (Reply ''RESOLVED'')])"
    using diagnostics_is_a_gate [of prompt_blocker "answering_env ''RESOLVED''" "[]"]
      prompt_blocker_reaches(1) [of "''RESOLVED''"] prompt_blocker_reaches(2)
      prompt_blocker_reaches(3) [of "''RESOLVED''"] ne
    by blast
  moreover have "says_resolved ''RESOLVED''"
    by (simp add: says_resolved_lower lower_def lower_char_def)
  ultimately have e: "check_if_resolved (answering_env ''RESOLVED'') [] prompt_blocker
     = Inr (True, [Asked_assistant (assistant_context prompt_blocker ''Test prompt'')
                     (Reply ''RESOLVED'')])" by simp
  from a b c c' e show ?thesis by blast
qed

section \<open>Validation of a task\<close>

text \<open>
  Claim C5 against the code: for every task without a validation spec
  \<^verbatim>\<open>validate_task\<close> returns the status SUCCESS with no artifacts and no message, where
  the claim and \<^verbatim>\<open>test_validate_task_no_validation\<close> expect SKIPPED with a message.
\<close>

theorem no_validation_returns_success:
  "validate_task run loads rd (t\<lparr>task_validation := None\<rparr>) phase_name
     = \<lparr>status = SUCCESS, artifacts = [], error_message = None\<rparr>"
  by (simp add: validate_task_def)

text \<open>
  Claim C6 against the code: the script path is never looked up. The interpreter started
  on a missing script exits with 2 and names the file on standard error; the result is a
  FAILURE without artifacts whose message repeats that text, and \<^verbatim>\<open>not found\<close> does not
  occur in it.
\<close>

theorem missing_script_message:
  \<open>validate_task
     (\<lambda>scr. Completed 2 []
        (''python: can'' @ [CHR 0x27] @ ''t open file '' @ [CHR 0x27] @ scr @ [CHR 0x27]
           @ '': [Errno 2] No such file or directory''))
     loads rd
     \<lparr>description = ''Test Task'', command = Some ''echo test'',
      task_validation =
        Some \<lparr>script = ''validate_test.py'',
              expected_artifacts = Some [''test.txt'', ''metrics.json'']\<rparr>,
      blockers = None\<rparr>
     ''test_phase''
   = \<lparr>status = FAILURE, artifacts = [],
      error_message =
        Some (JStr (''Validation script failed: python: can'' @ [CHR 0x27] @ ''t open file ''
                      @ [CHR 0x27] @ ''validate_test.py'' @ [CHR 0x27]
                      @ '': [Errno 2] No such file or directory''))\<rparr>
   \<and> \<not> sublist ''not found''
         (''Validation script failed: python: can'' @ [CHR 0x27] @ ''t open file ''
            @ [CHR 0x27] @ ''validate_test.py'' @ [CHR 0x27]
            @ '': [Errno 2] No such file or directory'')\<close>
  by (simp add: validate_task_def sublist_Cons_right)

text \<open>
  Claim C8 against the code: a successful validation that collects a metrics document
  returns the three fields of \<^verbatim>\<open>ValidationResult\<close>, the document as an artifact text and
  nothing read out of it; the result has no metrics.
\<close>

theorem result_has_no_metrics:
  \<open>validate_task
     (\<lambda>scr. Completed 0 ''{"status": "success"}'' [])
     (\<lambda>text. if text = ''{"status": "success"}''
              then Some (JObj [(''status'', JStr ''success'')]) else None)
     (\<lambda>a. if a = ''metrics.json'' then Content ''{"test_coverage": 85}'' else Absent)
     \<lparr>description = ''Test Task'', command = None,
      task_validation =
        Some \<lparr>script = ''validate_test.py'', expected_artifacts = Some [''metrics.json'']\<rparr>,
      blockers = None\<rparr>
     ''test_phase''
   = \<lparr>status = SUCCESS,
      artifacts = [(''metrics.json'', ''{"test_coverage": 85}'')],
      error_message = None\<rparr>\<close>
  by (simp add: validate_task_def)

section \<open>The engine stops at the first failing command\<close>

lemma clean_append [simp]: "clean (xs @ ys) = (clean xs \<and> clean ys)"
  by (auto simp: clean_def)

lemma clean_Nil [simp]: "clean []"
  by (simp add: clean_def)

lemma clean_Cons [simp]: "clean (x # xs) = (\<not> failing_command x \<and> clean xs)"
  by (auto simp: clean_def)

lemma set_task_status_ready:
  "ready pn d \<Longrightarrow> \<exists>d'. set_task_status pn td v d = Some d' \<and> task_status d' pn td = Some v"
  by (auto simp: ready_def set_task_status_def task_status_def update_conv')

lemma begin_task_ready: "begin_task pn td d = Some d' \<Longrightarrow> ready pn d'"
  by (auto simp: begin_task_def ready_def update_conv' Let_def split: option.splits)

lemma fail_task_after_command:
  assumes "ready pn (st_doc s)" and "clean (st_log s)" and "failing_command (Ran_command pn td c out)"
  shows "fail_fast_flow (fail_task pn td (s\<lparr>st_log := st_log s @ [Ran_command pn td c out]\<rparr>))"
proof -
  from set_task_status_ready [OF assms(1)]
  obtain d' where d': "set_task_status pn td ''failed'' (st_doc s) = Some d'"
    and ts: "task_status d' pn td = Some ''failed''" by blast
  have "stopped_at_failure
          (save_status (s\<lparr>st_log := st_log s @ [Ran_command pn td c out], st_doc := d'\<rparr>))"
    unfolding stopped_at_failure_def
    using assms(2,3) ts by (intro exI [of _ "st_log s"] exI [of _ pn] exI [of _ td] exI [of _ c] exI [of _ out])
      (simp add: save_status_def)
  with d' show ?thesis
    by (simp add: fail_task_def mark_task_def)
qed

lemma fail_task_clean:
  "clean (st_log s) \<Longrightarrow> fail_fast_flow (fail_task pn td s)"
  by (auto simp: fail_task_def mark_task_def save_status_def split: option.splits)

lemma complete_task_clean:
  "clean (st_log s) \<Longrightarrow> fail_fast_flow (complete_task pn td s)"
  by (auto simp: complete_task_def mark_task_def save_status_def split: option.splits)

lemma validation_step_clean:
  "clean (st_log s) \<Longrightarrow> fail_fast_flow (validation_step e pn t s)"
  by (auto simp: validation_step_def Let_def intro!: fail_task_clean complete_task_clean
           split: option.splits proc_outcome.splits)

lemma command_step_fail_fast:
  assumes "ready pn (st_doc s)" and "clean (st_log s)"
  shows "fail_fast_flow (command_step e pn t s)"
proof (cases "command t")
  case None
  with assms show ?thesis by (simp add: command_step_def validation_step_clean)
next
  case (Some c)
  show ?thesis
  proof (cases "failing_command (Ran_command pn (description t) c (run_shell e (st_log s) c))")
    case True
    from fail_task_after_command [OF assms True] Some True show ?thesis
      by (auto simp: command_step_def Let_def split: proc_outcome.splits)
  next
    case False
    with assms(2) have "clean (st_log s @ [Ran_command pn (description t) c (run_shell e (st_log s) c)])"
      by simp
    then have "fail_fast_flow (validation_step e pn t
                 (s\<lparr>st_log := st_log s @ [Ran_command pn (description t) c (run_shell e (st_log s) c)]\<rparr>))"
      by (intro validation_step_clean) simp
    with Some False show ?thesis
      by (auto simp: command_step_def Let_def split: proc_outcome.splits)
  qed
qed

lemma check_if_resolved_clean:
  assumes "clean log"
  shows "check_if_resolved e log b = Inr (ok, l) \<Longrightarrow> clean l"
    and "check_if_resolved e log b = Inl (m, l) \<Longrightarrow> clean l"
  using assms
  by (auto simp: check_if_resolved_def run_diagnostics_def Let_def
           split: option.splits list.splits ai_outcome.splits prod.splits if_splits)

lemma resolve_blockers_clean:
  assumes "clean log"
  shows "(\<forall>u l. resolve_blockers e log bs = Inr (u, l) \<longrightarrow> clean l)
       \<and> (\<forall>m l. resolve_blockers e log bs = Inl (m, l) \<longrightarrow> clean l)"
  using assms
proof (induction bs arbitrary: log)
  case Nil
  then show ?case by simp
next
  case (Cons b bs)
  show ?case
  proof (cases "check_if_resolved e log b")
    case (Inl raised)
    obtain m l where "raised = (m, l)" by (cases raised)
    with Inl check_if_resolved_clean(2) [OF Cons.prems, of e b m l]
    show ?thesis by simp
  next
    case (Inr res)
    obtain ok log1 where res: "res = (ok, log1)" by (cases res)
    with Inr check_if_resolved_clean(1) [OF Cons.prems, of e b ok log1]
    have c1: "clean log1" by simp
    note ih = Cons.IH [OF c1]
    show ?thesis
    proof (cases "resolve_blockers e log1 bs")
      case (Inl raised)
      obtain m l where "raised = (m, l)" by (cases raised)
      with Inl ih \<open>check_if_resolved e log b = Inr res\<close> res
      show ?thesis by simp
    next
      case (Inr rest)
      obtain u l where "rest = (u, l)" by (cases rest)
      with Inr ih \<open>check_if_resolved e log b = Inr res\<close> res
      show ?thesis by simp
    qed
  qed
qed

lemma blockers_step_fail_fast:
  assumes "ready pn (st_doc s)" and "clean (st_log s)"
  shows "fail_fast_flow (blockers_step e pn t s)"
proof (cases "blockers t")
  case None
  with assms show ?thesis by (simp add: blockers_step_def command_step_fail_fast)
next
  case (Some bl)
  show ?thesis
  proof (cases bl)
    case Nil
    with Some assms show ?thesis by (simp add: blockers_step_def command_step_fail_fast)
  next
    case (Cons b bs)
    note rb = resolve_blockers_clean [OF assms(2), of e "b # bs"]
    show ?thesis
    proof (cases "resolve_blockers e (st_log s) (b # bs)")
      case (Inl raised)
      obtain m l where r: "raised = (m, l)" by (cases raised)
      with Inl rb have "clean l" by simp
      with Inl r Some Cons show ?thesis by (simp add: blockers_step_def)
    next
      case (Inr res)
      obtain u l where r: "res = (u, l)" by (cases res)
      with Inr rb have cl: "clean l" by simp
      show ?thesis
      proof (cases "u = []")
        case True
        have "fail_fast_flow (command_step e pn t (s\<lparr>st_log := l\<rparr>))"
          by (rule command_step_fail_fast) (use assms(1) cl in simp_all)
        with True Inr r Some Cons show ?thesis by (simp add: blockers_step_def)
      next
        case False
        with Inr r Some Cons cl show ?thesis
          by (simp add: blockers_step_def mark_task_def save_status_def split: option.splits)
      qed
    qed
  qed
qed

lemma execute_task_fail_fast:
  "clean (st_log s) \<Longrightarrow> fail_fast_flow (execute_task e pn t s)"
  by (auto simp: execute_task_def save_status_def dest: begin_task_ready
           intro!: blockers_step_fail_fast split: option.splits)

lemma execute_tasks_fail_fast:
  "clean (st_log s) \<Longrightarrow> fail_fast_flow (execute_tasks e pn ts s)"
proof (induction ts arbitrary: s)
  case Nil
  then show ?case by simp
next
  case (Cons t ts)
  from execute_task_fail_fast [OF Cons.prems, of e pn t] Cons.IH
  show ?case by (auto split: flow.splits)
qed

lemma finish_phase_clean:
  "clean (st_log s) \<Longrightarrow> fail_fast_flow (finish_phase ph s)"
  by (auto simp: finish_phase_def save_status_def Let_def split: option.splits)

lemma execute_phase_fail_fast:
  assumes "clean (st_log s)"
  shows "fail_fast_flow (execute_phase e ph s)"
proof -
  let ?s1 = "save_status (s\<lparr>st_doc := begin_phase (name ph) (st_doc s)\<rparr>)"
  have "clean (st_log ?s1)" using assms by (simp add: save_status_def)
  from execute_tasks_fail_fast
         [OF this, of e "name ph" "case tasks ph of None \<Rightarrow> [] | Some ts \<Rightarrow> ts"]
  show ?thesis
    by (auto simp: execute_phase_def Let_def intro: finish_phase_clean split: flow.splits)
qed

lemma execute_phases_fail_fast:
  "clean (st_log s) \<Longrightarrow> fail_fast_flow (execute_phases e phs s)"
proof (induction phs arbitrary: s)
  case Nil
  then show ?case by simp
next
  case (Cons ph phs)
  from execute_phase_fail_fast [OF Cons.prems, of e ph] Cons.IH
  show ?case by (auto split: flow.splits)
qed

lemma failure_is_last:
  assumes "clean l" and "failing_command ev" and "\<not> failing_command sv"
    and "l @ [ev', sv] = pre @ ev # post"
  shows "pre = l \<and> ev = ev' \<and> post = [sv]"
  using assms
proof (induction l arbitrary: pre)
  case Nil
  then show ?case
    by (cases pre) (auto simp: Cons_eq_append_conv)
next
  case (Cons a l)
  show ?case
  proof (cases pre)
    case Nil
    with Cons.prems show ?thesis by auto
  next
    case (Cons p pre')
    with Cons.prems Cons.IH [of pre'] show ?thesis by auto
  qed
qed

text \<open>
  Claim C7. In every run of a loaded checklist, a command that exits with a code other
  than 0 is followed by one thing only, the save of the status document in which its task
  is \<^verbatim>\<open>failed\<close>: no later command, validation, diagnostic or assistant call of any phase
  happens, and the run returns 1.
\<close>

theorem fail_fast:
  assumes run: "execute_checklist e (Some phases) d = (rc, s)"
    and log: "st_log s = pre @ Ran_command pn td c (Completed code out err) # post"
    and code: "code \<noteq> 0"
  shows "rc = 1 \<and> post = [Saved_status (st_doc s)] \<and> task_status (st_doc s) pn td = Some ''failed''"
proof -
  have ff: "fail_fast_flow (execute_phases e phases \<lparr>st_doc = d, st_log = []\<rparr>)"
    by (rule execute_phases_fail_fast) simp
  have bad: "failing_command (Ran_command pn td c (Completed code out err))"
    using code by simp
  have not_clean: "\<not> clean (st_log s)"
    using log bad by simp
  from run ff not_clean have rc: "rc = 1" and stop: "stopped_at_failure s"
    by (auto simp: execute_checklist_def split: flow.splits)
  from stop obtain l pn' td' c' out' where l: "clean l"
    and sl: "st_log s = l @ [Ran_command pn' td' c' out', Saved_status (st_doc s)]"
    and ts: "task_status (st_doc s) pn' td' = Some ''failed''"
    by (auto simp: stopped_at_failure_def)
  from failure_is_last [OF l bad, of "Saved_status (st_doc s)" "Ran_command pn' td' c' out'" pre post]
    sl log
  have "pre = l \<and> Ran_command pn td c (Completed code out err) = Ran_command pn' td' c' out'
        \<and> post = [Saved_status (st_doc s)]"
    by simp
  with rc ts show ?thesis by auto
qed

theorem fail_fast_witness:
  "fst (execute_checklist failing_env (Some failing_phases) []) = 1
   \<and> st_log (snd (execute_checklist failing_env (Some failing_phases) []))
       = [Saved_status [(''Phase 1'', \<lparr>entry_status = Some ''in_progress'', entry_tasks = Some []\<rparr>)],
          Saved_status [(''Phase 1'', \<lparr>entry_status = Some ''in_progress'',
                                        entry_tasks = Some [(''Task 1'', ''in_progress'')]\<rparr>)],
          Ran_command ''Phase 1'' ''Task 1'' ''exit 1'' (Completed 1 [] ''boom''),
          Saved_status [(''Phase 1'', \<lparr>entry_status = Some ''in_progress'',
                                        entry_tasks = Some [(''Task 1'', ''failed'')]\<rparr>)]]
   \<and> task_status (st_doc (snd (execute_checklist failing_env (Some failing_phases) [])))
         ''Phase 1'' ''Task 1'' = Some ''failed''"
proof -
  let ?doc = "[(''Phase 1'', \<lparr>entry_status = Some ''in_progress'',
                               entry_tasks = Some [(''Task 1'', ''failed'')]\<rparr>)]"
  let ?pre = "[Saved_status [(''Phase 1'', \<lparr>entry_status = Some ''in_progress'', entry_tasks = Some []\<rparr>)],
          Saved_status [(''Phase 1'', \<lparr>entry_status = Some ''in_progress'',
                                        entry_tasks = Some [(''Task 1'', ''in_progress'')]\<rparr>)]]"
  let ?s = "\<lparr>st_doc = ?doc,
             st_log = ?pre @ Ran_command ''Phase 1'' ''Task 1'' ''exit 1'' (Completed 1 [] ''boom'')
                        # [Saved_status ?doc]\<rparr>"
  have run: "execute_checklist failing_env (Some failing_phases) [] = (1, ?s)"
    by (simp add: engine_defs failing_env_def failing_phases_def)
  have log: "st_log ?s = ?pre @ Ran_command ''Phase 1'' ''Task 1'' ''exit 1'' (Completed 1 [] ''boom'')
                        # [Saved_status ?doc]"
    by simp
  have code: "(1::int) \<noteq> 0" by simp
  from fail_fast [OF run log code] run show ?thesis by simp
qed

section \<open>Validation inside the engine\<close>










section \<open>The success gate\<close>

text \<open>
  Claim C4 against the code: \<^verbatim>\<open>_check_success_gate\<close> returns True for every gate, its
  checks being left as TODO, so that the phase behind a gate of 80 is \<^verbatim>\<open>completed\<close> and
  the run returns 0 whatever its tasks report.
\<close>

theorem gate_never_fails:
  "check_success_gate gate
   \<and> fst (execute_checklist passing_env (Some gated_phases) []) = 0
   \<and> phase_status (st_doc (snd (execute_checklist passing_env (Some gated_phases) [])))
        ''Test Phase'' = Some ''completed''"
  by (simp add: engine_defs phase_status_def passing_env_def gated_phases_def
        split: option.splits)

section \<open>Saving the status document\<close>

text \<open>
  Claim C2 as stated fails: the file holds a valid document, and a save that stops after
  12 characters leaves the beginning of the new document in its place.
\<close>

theorem partial_write_counterexample:
  \<open>map_of [(''test_status.json'', ''{"Phase 1": {"status": "completed", "tasks": {}}}'')]
      ''test_status.json''
     = Some ''{"Phase 1": {"status": "completed", "tasks": {}}}''
   \<and> map_of
       (save_status_file True (Some ''test'')
          ''{"Phase 1": {"status": "completed", "tasks": {}}, "Phase 2": {"status": "in_progress", "tasks": {}}}''
          (Stops_after 12)
          [(''test_status.json'', ''{"Phase 1": {"status": "completed", "tasks": {}}}'')])
       ''test_status.json''
     = Some ''{"Phase 1": ''\<close>
  by (simp add: save_status_file_def status_path_def open_w_def write_text_def)

text \<open>
  Claim C2, amended. A save writes the status file in place, without a temporary file and
  without a replacement step: when nothing goes wrong the file holds the new document;
  when the writing stops after \<open>k\<close> characters the file holds the first \<open>k\<close> characters of
  the new document and the previous content is gone; when the file cannot be opened, or
  no checklist is loaded or named, the file system is unchanged.
\<close>

theorem save_in_place:
  "save_status_file True (Some n) text No_fault fs = AList.update (status_path n) text fs
   \<and> save_status_file True (Some n) text (Stops_after k) fs
       = AList.update (status_path n) (take k text) fs
   \<and> map_of (save_status_file True (Some n) text (Stops_after k) fs) (status_path n)
       = Some (take k text)
   \<and> save_status_file True (Some n) text Open_raises fs = fs
   \<and> save_status_file False cn text fault fs = fs
   \<and> save_status_file loaded None text fault fs = fs"
  by (auto simp: save_status_file_def open_w_def write_text_def update_conv'
           split: option.splits)

section \<open>Cleanup of artifacts\<close>

lemma cleanup_files_filter:
  "cleanup_files now days files
     = (filter (\<lambda>f. \<not> expired now days f) files, length (filter (expired now days) files))"
  by (induction files) (simp_all add: Let_def)

text \<open>
  Claim C9, on the cleanup modelled from the specification. Without the directory of the
  task, cleanup returns 0 and changes nothing. With it, cleanup keeps exactly the files
  whose age does not exceed \<open>max_age_days\<close>, in their order, deletes the others and
  returns their number; with a threshold of 7 days, a file last read 8 days ago and a
  file last read now, it returns 1 and leaves the fresh file.
\<close>

theorem cleanup_deletes_expired:
  "(map_of store task_id = None \<longrightarrow> cleanup store now task_id days = (store, 0))
   \<and> (\<forall>files. map_of store task_id = Some files \<longrightarrow>
         cleanup store now task_id days
           = (AList.update task_id (filter (\<lambda>f. \<not> expired now days f) files) store,
              length (filter (expired now days) files)))
   \<and> cleanup [(''test_phase/test_task'',
                 [\<lparr>file_name = ''old.txt'', last_access = t0 - 8 * 86400\<rparr>,
                  \<lparr>file_name = ''new.txt'', last_access = t0\<rparr>])]
        t0 ''test_phase/test_task'' 7
       = ([(''test_phase/test_task'', [\<lparr>file_name = ''new.txt'', last_access = t0\<rparr>])], 1)"
  by (simp add: cleanup_def cleanup_files_filter expired_def)

theorem cleanup_deletes_expired_witness:
  "cleanup [(''test_phase/test_task'',
             [\<lparr>file_name = ''old.txt'', last_access = 1000000 - 8 * 86400\<rparr>,
              \<lparr>file_name = ''new.txt'', last_access = 1000000\<rparr>])]
      1000000 ''test_phase/test_task'' 7
     = ([(''test_phase/test_task'', [\<lparr>file_name = ''new.txt'', last_access = 1000000\<rparr>])], 1)
   \<and> cleanup [] 1000000 ''test_phase/test_task'' 7 = ([], 0)"
proof -
  let ?files = "[\<lparr>file_name = ''old.txt'', last_access = 1000000 - 8 * 86400\<rparr>,
                 \<lparr>file_name = ''new.txt'', last_access = 1000000\<rparr>]"
  let ?store = "[(''test_phase/test_task'', ?files)]"
  have present: "map_of ?store ''test_phase/test_task'' = Some ?files" by simp
  have absent: "map_of ([] :: artifact_store) ''test_phase/test_task'' = None" by simp
  from cleanup_deletes_expired [of ?store "''test_phase/test_task''" 1000000 7] present
  have "cleanup ?store 1000000 ''test_phase/test_task'' 7
          = (AList.update ''test_phase/test_task''
               (filter (\<lambda>f. \<not> expired 1000000 7 f) ?files) ?store,
             length (filter (expired 1000000 7) ?files))"
    by blast
  then have a: "cleanup ?store 1000000 ''test_phase/test_task'' 7
     = ([(''test_phase/test_task'', [\<lparr>file_name = ''new.txt'', last_access = 1000000\<rparr>])], 1)"
    by (simp add: expired_def)
  from cleanup_deletes_expired [of "[]" "''test_phase/test_task''" 1000000 7] absent
  have b: "cleanup [] 1000000 ''test_phase/test_task'' 7 = ([], 0)"
    by blast
  from a b show ?thesis by simp
qed

end
